theory Spec2Isabelle
  imports Main "HOL-Library.Word"
begin

section \<open>The monitor scheduler of agento (package monitor, Monitor.go)\<close>

text \<open>
  The development embeds the Scheduler of \<^verbatim>\<open>monitor/Monitor.go\<close>: the CRUD operations
  on the monitor collection, the startup of \<^verbatim>\<open>Loop\<close>, the scan of one tick, and the
  body of the goroutine that runs one check. Everything outside the process (the Mongo
  collections, the broadcaster, the logger, the time-series sink, the random generator,
  the job plugins) is explicit: the collections are lists of documents, every call to the
  outside appends to one trace in program order, and what the outside answers (a storage
  failure, the points of a job, a random draw) is an argument of the function that makes
  the call.
\<close>

subsection \<open>Results of calls\<close>

text \<open>A Go function either returns or panics; a panic nobody recovers ends the process.\<close>

datatype 'a exec = Panic | Ret 'a

datatype error =
    ErrorInvalidId
  | ErrNotFound
  | ErrDuplicateKey
  | StoreFailure string
  | JobFailure string
  | SinkFailure string

subsection \<open>Identifiers: bson.ObjectId and its hexadecimal form\<close>

text \<open>
  \<^verbatim>\<open>bson.ObjectId\<close> is a Go string holding raw bytes (twelve of them when well formed);
  the CRUD operations receive identifiers as hexadecimal text. The functions below are
  those of the libraries \<^verbatim>\<open>encoding/hex\<close> and \<^verbatim>\<open>gopkg.in/mgo.v2/bson\<close> the source calls:
  \<^verbatim>\<open>fromHexChar\<close>, \<^verbatim>\<open>hex.DecodeString\<close>, \<^verbatim>\<open>hex.EncodeToString\<close>, \<^verbatim>\<open>bson.IsObjectIdHex\<close>,
  \<^verbatim>\<open>bson.ObjectIdHex\<close> (which panics on a malformed argument) and \<^verbatim>\<open>ObjectId.Hex\<close>.
\<close>

type_synonym ObjectId = string

definition fromHexChar :: "char \<Rightarrow> nat option" where
  "fromHexChar c =
     (let n = (of_char c :: nat) in
      if 48 \<le> n \<and> n \<le> 57 then Some (n - 48)
      else if 97 \<le> n \<and> n \<le> 102 then Some (n - 97 + 10)
      else if 65 \<le> n \<and> n \<le> 70 then Some (n - 65 + 10)
      else None)"

fun DecodeString :: "string \<Rightarrow> string option" where
  "DecodeString [] = Some []"
| "DecodeString [c] = None"
| "DecodeString (a # b # cs) =
     (case (fromHexChar a, fromHexChar b) of
        (Some h, Some l) \<Rightarrow>
          (case DecodeString cs of
             None \<Rightarrow> None
           | Some ds \<Rightarrow> Some (char_of (h * 16 + l) # ds))
      | _ \<Rightarrow> None)"



definition IsObjectIdHex :: "string \<Rightarrow> bool" where
  "IsObjectIdHex s = (if length s \<noteq> 24 then False else DecodeString s \<noteq> None)"

definition ObjectIdHex :: "string \<Rightarrow> ObjectId exec" where
  "ObjectIdHex s =
     (case DecodeString s of
        None \<Rightarrow> Panic
      | Some d \<Rightarrow> if length d \<noteq> 12 then Panic else Ret d)"


text \<open>
  The identifiers the persistent store uses, in the words of the interface: strings of
  24 hexadecimal characters.
\<close>

definition hexdigits :: string where
  "hexdigits = ''0123456789abcdefABCDEF''"

definition well_formed_id :: "string \<Rightarrow> bool" where
  "well_formed_id s \<longleftrightarrow> length s = 24 \<and> (\<forall>c \<in> set s. c \<in> set hexdigits)"

subsection \<open>Time\<close>

text \<open>
  A \<^verbatim>\<open>time.Time\<close> is an instant, counted here in nanoseconds as an unbounded integer; a
  \<^verbatim>\<open>time.Duration\<close> is an \<^verbatim>\<open>int64\<close> of nanoseconds, so the products and negations the
  source writes on durations wrap. \<^verbatim>\<open>Time.Sub\<close> saturates at the least and the greatest
  duration, as the library documents; \<^verbatim>\<open>Time.Add\<close> moves an instant by a duration.
\<close>

type_synonym Time = int
type_synonym Duration = "64 word"

definition minDuration :: Duration where
  "minDuration = word_of_int (- (2 ^ 63))"

definition maxDuration :: Duration where
  "maxDuration = word_of_int (2 ^ 63 - 1)"

definition Sub :: "Time \<Rightarrow> Time \<Rightarrow> Duration" where
  "Sub t u =
     (let d = t - u in
      if d < - (2 ^ 63) then minDuration
      else if 2 ^ 63 - 1 < d then maxDuration
      else word_of_int d)"

definition Add :: "Time \<Rightarrow> Duration \<Rightarrow> Time" where
  "Add t d = t + sint d"

subsection \<open>Data model\<close>

text \<open>
  \<^verbatim>\<open>client.Point\<close> is a measurement of the time-series client library; the scheduler
  never looks inside one. \<^verbatim>\<open>Job\<close>, \<^verbatim>\<open>Host\<close> and the transport interface are declared in
  files of the package that are not part of the sources at hand; only the fields
  \<^verbatim>\<open>Monitor.go\<close> touches are kept.
\<close>

datatype Point = Point string int

type_synonym Transport = string

record Job =
  AgentId :: string

record Host =
  Id_host :: ObjectId
  Name :: string
  TransportId :: string
  Transport :: "Transport option"

record Monitor =
  Id_mon :: ObjectId
  HostId :: ObjectId
  Interval :: Duration
  Job :: Job
  LastCheck :: Time
  NextCheck :: Time
  LastPoints :: "Point list"

subsection \<open>The outside world\<close>

datatype colour = Red | Yellow | Green

datatype payload = MonitorValue Monitor | IdValue string

datatype effect =
    Broadcast string payload
  | Log colour string
  | MonitorFindAll
  | MonitorFindId ObjectId
  | MonitorUpdateId ObjectId Monitor
  | MonitorInsert Monitor
  | MonitorRemoveId ObjectId
  | HostFindId ObjectId
  | HostInsert Host
  | JobRun Job "Transport option"
  | SinkWrite "Point list"

record world =
  monitorCollection :: "Monitor list"
  hostCollection :: "Host list"
  objectIdCounter :: nat
  trace :: "effect list"

text \<open>
  Modelled from the spec: the \<^verbatim>\<open>Broadcaster\<close> and the logger are declared outside the
  sources at hand. A broadcast emits a named event carrying the affected Monitor (or its
  identifier for deletion), fire and forget: it returns nothing and cannot fail the
  caller. Both are recorded by \<open>emit\<close>, which appends to the trace.
\<close>

definition emit :: "effect \<Rightarrow> world \<Rightarrow> world" where
  "emit x w = w\<lparr>trace := trace w @ [x]\<rparr>"

text \<open>
  A Mongo collection keeps at most one document per \<^verbatim>\<open>_id\<close>. Each operation takes the
  failure the store imposes on this call, if any (\<open>fault\<close>); a call that fails changes
  nothing. \<open>key\<close> reads the \<^verbatim>\<open>_id\<close> of a document.
\<close>

definition coll_FindId :: "('d \<Rightarrow> ObjectId) \<Rightarrow> 'd list \<Rightarrow> ObjectId \<Rightarrow> error option \<Rightarrow> error + 'd" where
  "coll_FindId key c i fault =
     (case fault of
        Some e \<Rightarrow> Inl e
      | None \<Rightarrow> (case find (\<lambda>d. key d = i) c of None \<Rightarrow> Inl ErrNotFound | Some d \<Rightarrow> Inr d))"

fun replace_doc :: "('d \<Rightarrow> ObjectId) \<Rightarrow> ObjectId \<Rightarrow> 'd \<Rightarrow> 'd list \<Rightarrow> 'd list" where
  "replace_doc key i doc [] = []"
| "replace_doc key i doc (d # ds) =
     (if key d = i then doc # ds else d # replace_doc key i doc ds)"

definition coll_UpdateId ::
  "('d \<Rightarrow> ObjectId) \<Rightarrow> 'd list \<Rightarrow> ObjectId \<Rightarrow> 'd \<Rightarrow> error option \<Rightarrow> error option \<times> 'd list" where
  "coll_UpdateId key c i doc fault =
     (case fault of
        Some e \<Rightarrow> (Some e, c)
      | None \<Rightarrow>
          if find (\<lambda>d. key d = i) c = None then (Some ErrNotFound, c)
          else (None, replace_doc key i doc c))"

definition coll_Insert ::
  "('d \<Rightarrow> ObjectId) \<Rightarrow> 'd list \<Rightarrow> 'd \<Rightarrow> error option \<Rightarrow> error option \<times> 'd list" where
  "coll_Insert key c doc fault =
     (case fault of
        Some e \<Rightarrow> (Some e, c)
      | None \<Rightarrow>
          if find (\<lambda>d. key d = key doc) c \<noteq> None then (Some ErrDuplicateKey, c)
          else (None, c @ [doc]))"

definition coll_RemoveId ::
  "('d \<Rightarrow> ObjectId) \<Rightarrow> 'd list \<Rightarrow> ObjectId \<Rightarrow> error option \<Rightarrow> error option \<times> 'd list" where
  "coll_RemoveId key c i fault =
     (case fault of
        Some e \<Rightarrow> (Some e, c)
      | None \<Rightarrow>
          if find (\<lambda>d. key d = i) c = None then (Some ErrNotFound, c)
          else (None, filter (\<lambda>d. key d \<noteq> i) c))"

subsection \<open>CRUD operations of the Scheduler\<close>

text \<open>\<^verbatim>\<open>GetMonitor\<close>, lines 85 to 99.\<close>

definition GetMonitor :: "world \<Rightarrow> error option \<Rightarrow> string \<Rightarrow> ((error + Monitor) \<times> world) exec" where
  "GetMonitor w fault i =
     (if \<not> IsObjectIdHex i then Ret (Inl ErrorInvalidId, w)
      else
        (case ObjectIdHex i of
           Panic \<Rightarrow> Panic
         | Ret oid \<Rightarrow>
             (let w1 = emit (MonitorFindId oid) w in
              case coll_FindId Id_mon (monitorCollection w1) oid fault of
                Inl e \<Rightarrow> Ret (Inl e, emit (Log Red ''Error getting monitors from Mongo: %s'') w1)
              | Inr m \<Rightarrow> Ret (Inr m, w1))))"

text \<open>\<^verbatim>\<open>UpdateMonitor\<close>, lines 101 to 105: broadcast, then the storage write.\<close>

definition UpdateMonitor :: "world \<Rightarrow> error option \<Rightarrow> Monitor \<Rightarrow> error option \<times> world" where
  "UpdateMonitor w fault mon =
     (let w1 = emit (Broadcast ''monchange'' (MonitorValue mon)) w;
          w2 = emit (MonitorUpdateId (Id_mon mon) mon) w1;
          (err, c) = coll_UpdateId Id_mon (monitorCollection w2) (Id_mon mon) mon fault
      in (err, w2\<lparr>monitorCollection := c\<rparr>))"

text \<open>
  \<^verbatim>\<open>AddMonitor\<close>, lines 107 to 113. \<^verbatim>\<open>bson.NewObjectId\<close> is the library's generator:
  \<open>gen n\<close> is the identifier its \<open>n\<close>-th call in this process returns, and the world
  counts the calls. The monitor is passed by pointer, so the caller sees the identifier:
  the operation returns the monitor as it leaves it.
\<close>

definition NewObjectId :: "(nat \<Rightarrow> ObjectId) \<Rightarrow> world \<Rightarrow> ObjectId \<times> world" where
  "NewObjectId gen w = (gen (objectIdCounter w), w\<lparr>objectIdCounter := Suc (objectIdCounter w)\<rparr>)"

definition AddMonitor ::
  "(nat \<Rightarrow> ObjectId) \<Rightarrow> world \<Rightarrow> error option \<Rightarrow> Monitor \<Rightarrow> (error option \<times> Monitor) \<times> world" where
  "AddMonitor gen w fault mon =
     (let (oid, w0) = NewObjectId gen w;
          mon' = mon\<lparr>Id_mon := oid\<rparr>;
          w1 = emit (Broadcast ''monadd'' (MonitorValue mon')) w0;
          w2 = emit (MonitorInsert mon') w1;
          (err, c) = coll_Insert Id_mon (monitorCollection w2) mon' fault
      in ((err, mon'), w2\<lparr>monitorCollection := c\<rparr>))"

text \<open>\<^verbatim>\<open>DeleteMonitor\<close>, lines 115 to 123.\<close>

definition DeleteMonitor :: "world \<Rightarrow> error option \<Rightarrow> string \<Rightarrow> (error option \<times> world) exec" where
  "DeleteMonitor w fault i =
     (if \<not> IsObjectIdHex i then Ret (Some ErrorInvalidId, w)
      else
        (let w1 = emit (Broadcast ''mondelete'' (IdValue i)) w in
         case ObjectIdHex i of
           Panic \<Rightarrow> Panic
         | Ret oid \<Rightarrow>
             (let w2 = emit (MonitorRemoveId oid) w1;
                  (err, c) = coll_RemoveId Id_mon (monitorCollection w2) oid fault
              in Ret (err, w2\<lparr>monitorCollection := c\<rparr>))))"

subsection \<open>Collaborators of the loop\<close>

text \<open>
  Modelled from the spec: \<^verbatim>\<open>GetHost\<close> is declared in a file of the package that is not
  part of the sources at hand; it is the get operation for hosts, which, like the one for
  monitors, fails with InvalidIdentifier on a malformed identifier and otherwise finds
  the document by identifier.
\<close>

definition GetHost :: "world \<Rightarrow> error option \<Rightarrow> string \<Rightarrow> ((error + Host) \<times> world) exec" where
  "GetHost w fault i =
     (if \<not> IsObjectIdHex i then Ret (Inl ErrorInvalidId, w)
      else
        (case ObjectIdHex i of
           Panic \<Rightarrow> Panic
         | Ret oid \<Rightarrow>
             (let w1 = emit (HostFindId oid) w in
              Ret (coll_FindId Id_host (hostCollection w1) oid fault, w1))))"

text \<open>
  Modelled from the spec: \<^verbatim>\<open>plugins.GetTransports\<close> returns the plugin registry, a
  process-wide mapping from a short string key to a constructor. What a constructor
  returns either implements the transport interface or does not; the type assertion
  \<^verbatim>\<open>p().(plugins.Transport)\<close> of the source panics on the latter.
\<close>

datatype plugin = IsTransport Transport | NotTransport

type_synonym registry = "string \<rightharpoonup> plugin"

text \<open>
  Modelled from the spec: \<^verbatim>\<open>server.WritePoints\<close> hands a batch of points to the
  time-series sink, which accepts the batch or fails; the failure comes back as an error.
\<close>

definition WritePoints :: "world \<Rightarrow> error option \<Rightarrow> Point list \<Rightarrow> error option \<times> world" where
  "WritePoints w fault p = (fault, emit (SinkWrite p) w)"

text \<open>
  Modelled from the spec: \<^verbatim>\<open>Job.Run\<close> runs the job against a transport and produces
  points or fails. What the plugin answers is an input, \<open>answer\<close>, of the call.
\<close>

definition Run ::
  "(Transport option \<Rightarrow> Point list \<times> error option) \<Rightarrow> world \<Rightarrow> Job \<Rightarrow> Transport option
     \<Rightarrow> (Point list \<times> error option) \<times> world" where
  "Run answer w j tr = (answer tr, emit (JobRun j tr) w)"

text \<open>
  \<^verbatim>\<open>rand.Int63n\<close> of the library panics on a bound that is not positive; otherwise it
  returns \<^verbatim>\<open>v % n\<close> for the 63-bit value \<open>v\<close> its generator settles on.
\<close>

definition Int63n :: "nat \<Rightarrow> 64 word \<Rightarrow> 64 word exec" where
  "Int63n v n = (if n \<le>s 0 then Panic else Ret (word_of_nat (v mod unat n)))"

subsection \<open>Startup of the loop\<close>

definition localId :: string where
  "localId = ''000000000000000000000000''"

text \<open>
  Lines 126 to 140. A lookup in a Go map that misses yields the zero value, here the nil
  constructor, and calling it panics.
\<close>

definition Loop_startup :: "registry \<Rightarrow> world \<Rightarrow> error option \<Rightarrow> error option \<Rightarrow> world exec" where
  "Loop_startup reg w get_fault insert_fault =
     (case GetHost w get_fault localId of
        Panic \<Rightarrow> Panic
      | Ret (Inr h, w1) \<Rightarrow> Ret w1
      | Ret (Inl err, w1) \<Rightarrow>
          (let p = reg ''localtransport'';
               w2 = (if p = None then emit (Log Red ''localtransport plugin not found'') w1 else w1)
           in case ObjectIdHex localId of
                Panic \<Rightarrow> Panic
              | Ret oid \<Rightarrow>
                  (case p of
                     None \<Rightarrow> Panic
                   | Some NotTransport \<Rightarrow> Panic
                   | Some (IsTransport tr) \<Rightarrow>
                       (let host = \<lparr>Id_host = oid, Name = ''localhost'',
                                    TransportId = ''localtransport'', Transport = Some tr\<rparr>;
                            w3 = emit (HostInsert host) w2;
                            (e, c) = coll_Insert Id_host (hostCollection w3) host insert_fault;
                            w4 = w3\<lparr>hostCollection := c\<rparr>
                        in Ret (emit (Log Yellow ''Added localhost transport with id %s'') w4)))))"

subsection \<open>The scan of one tick\<close>

text \<open>
  The loop owns the in-flight map and starts one goroutine per dispatched monitor;
  \<open>running\<close> lists the goroutines started and not yet finished, each with the copy of the
  monitor it was given and the \<^verbatim>\<open>t\<close> of the tick that started it.
\<close>

record loop_state =
  outside :: world
  inFlight :: "ObjectId \<rightharpoonup> bool"
  running :: "(Monitor \<times> Time) list"

text \<open>
  Lines 155 to 204, the body of the inner loop for one monitor of the snapshot. \<open>v\<close> is
  the draw of the random generator and \<open>fault\<close> the failure of the storage update, should
  the cold-start branch be taken.
\<close>

definition scan_mon :: "Time \<Rightarrow> nat \<Rightarrow> error option \<Rightarrow> loop_state \<Rightarrow> Monitor \<Rightarrow> loop_state exec" where
  "scan_mon t v fault s mon =
     (let age = Sub t (LastCheck mon);
          wait = Sub (NextCheck mon) t;
          found = (inFlight s (Id_mon mon) \<noteq> None)
      in if found then Ret s
         else if Interval mon * 2 <s age \<and> wait <s - Interval mon then
           (case Int63n v (Interval mon) of
              Panic \<Rightarrow> Panic
            | Ret checkIn \<Rightarrow>
                (let mon' = mon\<lparr>NextCheck := Add t checkIn\<rparr>;
                     w1 = emit (Log Yellow ''%s %s: Delaying first check by %s'') (outside s);
                     (err, w2) = UpdateMonitor w1 fault mon';
                     w3 = (if err \<noteq> None then emit (Log Red ''Error updating: %v'') w2 else w2)
                 in Ret (s\<lparr>outside := w3\<rparr>)))
         else if wait <s 0 then
           Ret (s\<lparr>inFlight := (inFlight s)(Id_mon mon \<mapsto> True),
                  running := running s @ [(mon, t)]\<rparr>)
         else Ret s)"

text \<open>The inner loop over the snapshot, lines 154 to 205.\<close>

fun scan ::
  "Time \<Rightarrow> (ObjectId \<Rightarrow> nat) \<Rightarrow> (ObjectId \<Rightarrow> error option) \<Rightarrow> loop_state \<Rightarrow> Monitor list
     \<Rightarrow> loop_state exec" where
  "scan t vs faults s [] = Ret s"
| "scan t vs faults s (mon # mons) =
     (case scan_mon t (vs (Id_mon mon)) (faults (Id_mon mon)) s mon of
        Panic \<Rightarrow> Panic
      | Ret s' \<Rightarrow> scan t vs faults s' mons)"

text \<open>
  One iteration of the outer loop, lines 146 to 206: what the ticker delivers and what
  the outside answers during the iteration is a \<open>tick_in\<close>.
\<close>

record tick_in =
  tick_time :: Time
  find_fault :: "error option"
  draws :: "ObjectId \<Rightarrow> nat"
  update_faults :: "ObjectId \<Rightarrow> error option"

definition coll_FindAll :: "'d list \<Rightarrow> error option \<Rightarrow> error + 'd list" where
  "coll_FindAll c fault = (case fault of Some e \<Rightarrow> Inl e | None \<Rightarrow> Inr c)"

definition tick :: "tick_in \<Rightarrow> loop_state \<Rightarrow> loop_state exec" where
  "tick k s =
     (let w1 = emit MonitorFindAll (outside s) in
      case coll_FindAll (monitorCollection w1) (find_fault k) of
        Inl e \<Rightarrow> Ret (s\<lparr>outside := emit (Log Red ''Error getting monitors from Mongo: %s'') w1\<rparr>)
      | Inr monitors \<Rightarrow> scan (tick_time k) (draws k) (update_faults k) (s\<lparr>outside := w1\<rparr>) monitors)"

text \<open>The outer loop over the ticks the ticker delivers.\<close>

fun ticker :: "tick_in list \<Rightarrow> loop_state \<Rightarrow> loop_state exec" where
  "ticker [] s = Ret s"
| "ticker (k # ks) s = (case tick k s of Panic \<Rightarrow> Panic | Ret s' \<Rightarrow> ticker ks s')"

definition Loop ::
  "registry \<Rightarrow> world \<Rightarrow> error option \<Rightarrow> error option \<Rightarrow> tick_in list \<Rightarrow> loop_state exec" where
  "Loop reg w get_fault insert_fault ks =
     (case Loop_startup reg w get_fault insert_fault of
        Panic \<Rightarrow> Panic
      | Ret w' \<Rightarrow> ticker ks \<lparr>outside = w', inFlight = Map.empty, running = []\<rparr>)"

subsection \<open>One dispatched execution\<close>

text \<open>
  Lines 178 to 203, the body of the goroutine, for the monitor \<open>mon\<close> and the \<open>t\<close> of the
  tick that dispatched it: the goroutine receives \<open>mon\<close> by value and reads the \<open>t\<close> of
  its iteration of the range loop (each iteration has its own). \<open>run_in\<close> is what the
  outside answers to its four calls, each of which returns.
\<close>

record run_in =
  host_fault :: "error option"
  job_answer :: "Transport option \<Rightarrow> Point list \<times> error option"
  store_fault :: "error option"
  sink_fault :: "error option"

definition zeroHost :: Host where
  "zeroHost = \<lparr>Id_host = [], Name = [], TransportId = [], Transport = None\<rparr>"

definition execution :: "run_in \<Rightarrow> loop_state \<Rightarrow> Monitor \<Rightarrow> Time \<Rightarrow> loop_state" where
  "execution r s mon t =
     (let w1 = emit (HostFindId (HostId mon)) (outside s);
          host = (case coll_FindId Id_host (hostCollection w1) (HostId mon) (host_fault r) of
                    Inl e \<Rightarrow> zeroHost
                  | Inr h \<Rightarrow> h);
          ((p, err), w2) = Run (job_answer r) w1 (Job mon) (Transport host);
          w3 = (if err = None then emit (Log Green ''%s: %s'') w2
                else emit (Log Red ''%s: %s'') w2);
          mon1 = mon\<lparr>LastPoints := p\<rparr>;
          mon2 = mon1\<lparr>LastCheck := t\<rparr>;
          mon3 = mon2\<lparr>NextCheck := Add t (Interval mon2)\<rparr>;
          (err2, w4) = UpdateMonitor w3 (store_fault r) mon3;
          w5 = (if err2 \<noteq> None then emit (Log Red ''Error updating: %s'') w4 else w4);
          (err3, w6) = WritePoints w5 (sink_fault r) p;
          w7 = (if err3 \<noteq> None then emit (Log Red ''Influxdb error: %s'') w6 else w6)
      in s\<lparr>outside := w7,
            inFlight := (inFlight s)(Id_mon mon3 := None),
            running := remove1 (mon, t) (running s)\<rparr>)"

subsection \<open>Observations\<close>

text \<open>The identifiers of the monitors whose goroutines are running.\<close>

definition running_ids :: "loop_state \<Rightarrow> ObjectId list" where
  "running_ids s = map (\<lambda>x. Id_mon (fst x)) (running s)"

text \<open>The identifiers carried by the \<^verbatim>\<open>monadd\<close> broadcasts of a trace, in order.\<close>

definition added_id :: "effect \<Rightarrow> ObjectId list" where
  "added_id x =
     (case x of
        Broadcast name (MonitorValue m) \<Rightarrow> if name = ''monadd'' then [Id_mon m] else []
      | _ \<Rightarrow> [])"

definition added_ids :: "effect list \<Rightarrow> ObjectId list" where
  "added_ids xs = concat (map added_id xs)"

subsection \<open>Interleavings\<close>

text \<open>
  The scan and the goroutines run concurrently, and so do the administrative calls. The
  in-flight map is read and written under its lock only, and only the loop adds to it,
  so the runs of the process are interleavings of these steps: the loop scans one
  monitor (any monitor at any time, which covers every snapshot and every goroutine
  that finishes in the middle of a scan), the loop runs a whole tick, a running
  goroutine finishes, or an administrative operation is served. \<open>gen\<close> is the identifier
  generator of the library.
\<close>

inductive step :: "(nat \<Rightarrow> ObjectId) \<Rightarrow> loop_state \<Rightarrow> loop_state \<Rightarrow> bool" for gen where
  scan_step: "scan_mon t v fault s mon = Ret s' \<Longrightarrow> step gen s s'"
| finish_step: "(mon, t) \<in> set (running s) \<Longrightarrow> step gen s (execution r s mon t)"
| tick_step: "tick k s = Ret s' \<Longrightarrow> step gen s s'"
| add_step: "AddMonitor gen (outside s) fault mon = (res, w') \<Longrightarrow> step gen s (s\<lparr>outside := w'\<rparr>)"
| update_step: "UpdateMonitor (outside s) fault mon = (err, w') \<Longrightarrow> step gen s (s\<lparr>outside := w'\<rparr>)"
| delete_step: "DeleteMonitor (outside s) fault i = Ret (err, w') \<Longrightarrow> step gen s (s\<lparr>outside := w'\<rparr>)"
| get_step: "GetMonitor (outside s) fault i = Ret (res, w') \<Longrightarrow> step gen s (s\<lparr>outside := w'\<rparr>)"

text \<open>
  The loop starts with an empty in-flight map and no goroutine, in a process that has
  served no add yet: the generator has not been called and the trace holds no
  \<^verbatim>\<open>monadd\<close> broadcast.
\<close>

inductive reachable :: "(nat \<Rightarrow> ObjectId) \<Rightarrow> loop_state \<Rightarrow> bool" for gen where
  reachable_init: "added_ids (trace w) = [] \<Longrightarrow> objectIdCounter w = 0 \<Longrightarrow>
     reachable gen \<lparr>outside = w, inFlight = Map.empty, running = []\<rparr>"
| reachable_step: "reachable gen s \<Longrightarrow> step gen s s' \<Longrightarrow> reachable gen s'"

subsection \<open>The invariant of the in-flight map\<close>

text \<open>The in-flight map holds exactly the identifiers of the running executions, each once.\<close>

definition in_flight_inv :: "loop_state \<Rightarrow> bool" where
  "in_flight_inv s \<longleftrightarrow> distinct (running_ids s) \<and> dom (inFlight s) = set (running_ids s)"

subsection \<open>Sample values\<close>

definition world0 :: world where
  "world0 = \<lparr>monitorCollection = [], hostCollection = [], objectIdCounter = 0, trace = []\<rparr>"

definition mon0 :: Monitor where
  "mon0 = \<lparr>Id_mon = ''AAAAAAAAAAAA'', HostId = ''BBBBBBBBBBBB'', Interval = 1000,
            Job = \<lparr>AgentId = ''c''\<rparr>, LastCheck = 0, NextCheck = 0, LastPoints = []\<rparr>"

definition world1 :: world where
  "world1 = world0\<lparr>monitorCollection := [mon0]\<rparr>"

text \<open>The state in which the loop starts, with \<open>mon0\<close> in the store.\<close>

definition state0 :: loop_state where
  "state0 = \<lparr>outside = world1, inFlight = Map.empty, running = []\<rparr>"

text \<open>The state after the loop has dispatched \<open>mon0\<close> at the tick of time 5.\<close>

definition state1 :: loop_state where
  "state1 = \<lparr>outside = world1, inFlight = [Id_mon mon0 \<mapsto> True], running = [(mon0, 5)]\<rparr>"

text \<open>What the outside answers to an execution in which the job, the store and the sink all fail.\<close>

definition all_fail :: run_in where
  "all_fail = \<lparr>host_fault = Some (StoreFailure ''down''),
                job_answer = (\<lambda>tr. ([], Some (JobFailure ''no transport''))),
                store_fault = Some (StoreFailure ''down''),
                sink_fault = Some (SinkFailure ''down'')\<rparr>"




text \<open>A tick whose fetch fails, and a tick at time 5 that is served.\<close>

definition failing_tick :: tick_in where
  "failing_tick = \<lparr>tick_time = 4, find_fault = Some (StoreFailure ''down''),
                    draws = (\<lambda>i. 0), update_faults = (\<lambda>i. None)\<rparr>"

definition good_tick :: tick_in where
  "good_tick = \<lparr>tick_time = 5, find_fault = None,
                 draws = (\<lambda>i. 0), update_faults = (\<lambda>i. None)\<rparr>"

section \<open>Properties\<close>

subsection \<open>Identifiers\<close>






lemma length_DecodeString: "DecodeString s = Some d \<Longrightarrow> length s = 2 * length d"
  by (induction s arbitrary: d rule: DecodeString.induct) (auto split: option.splits)



text \<open>After the guard of the CRUD operations, \<^verbatim>\<open>bson.ObjectIdHex\<close> cannot panic.\<close>

lemma ObjectIdHex_no_panic:
  assumes "IsObjectIdHex i"
  shows "\<exists>oid. ObjectIdHex i = Ret oid \<and> length oid = 12"
proof -
  from assms obtain d where d: "DecodeString i = Some d" and l: "length i = 24"
    by (auto simp: IsObjectIdHex_def split: if_splits)
  from length_DecodeString [OF d] l have "length d = 12" by simp
  with d show ?thesis by (simp add: ObjectIdHex_def)
qed

text \<open>The guard of the library accepts exactly the well-formed identifiers.\<close>

lemma fromHexChar_iff: "fromHexChar c \<noteq> None \<longleftrightarrow> c \<in> set hexdigits"
proof -
  have m: "c \<in> set hexdigits \<longleftrightarrow> (of_char c :: nat) \<in> of_char ` set hexdigits"
    by (auto simp: inj_image_mem_iff [OF inj_of_char])
  have "(n \<in> of_char ` set hexdigits) \<longleftrightarrow> 48 \<le> n \<and> n \<le> 57 \<or> 97 \<le> n \<and> n \<le> 102 \<or> 65 \<le> n \<and> n \<le> 70"
    for n :: nat
    unfolding hexdigits_def by simp arith
  then show ?thesis unfolding m
    by (simp add: fromHexChar_def Let_def)
qed

lemma DecodeString_iff:
  "DecodeString s \<noteq> None \<longleftrightarrow> even (length s) \<and> (\<forall>c \<in> set s. fromHexChar c \<noteq> None)"
  by (induction s rule: DecodeString.induct) (auto split: option.splits)

lemma IsObjectIdHex_iff: "IsObjectIdHex s \<longleftrightarrow> well_formed_id s"
  by (auto simp: IsObjectIdHex_def well_formed_id_def DecodeString_iff fromHexChar_iff
      simp del: not_None_eq)

subsection \<open>The store and the trace\<close>



lemma trace_emit: "trace (emit x w) = trace w @ [x]"
  by (simp add: emit_def)

lemma monitorCollection_emit: "monitorCollection (emit x w) = monitorCollection w"
  by (simp add: emit_def)

lemma hostCollection_emit: "hostCollection (emit x w) = hostCollection w"
  by (simp add: emit_def)

lemma objectIdCounter_emit: "objectIdCounter (emit x w) = objectIdCounter w"
  by (simp add: emit_def)

subsection \<open>Update\<close>

text \<open>
  C10. \<^verbatim>\<open>UpdateMonitor\<close> emits the "changed" broadcast (event \<^verbatim>\<open>monchange\<close>, carrying the
  monitor) before it attempts the storage write, whatever the store then answers: the
  trace grows by the broadcast followed by the update call. When the store fails, the
  operation returns that error, the collection is untouched, and the broadcast has been
  emitted all the same.
\<close>

theorem UpdateMonitor_broadcasts_before_write:
  "trace (snd (UpdateMonitor w fault mon)) =
     trace w @ [Broadcast ''monchange'' (MonitorValue mon), MonitorUpdateId (Id_mon mon) mon]
   \<and> fst (UpdateMonitor w (Some e) mon) = Some e
   \<and> monitorCollection (snd (UpdateMonitor w (Some e) mon)) = monitorCollection w"
  by (simp add: UpdateMonitor_def Let_def trace_emit monitorCollection_emit coll_UpdateId_def
      split: prod.splits)

subsection \<open>Delete\<close>

text \<open>
  C5. For an identifier that is not a well-formed 24-character hexadecimal string,
  \<^verbatim>\<open>DeleteMonitor\<close> returns \<^verbatim>\<open>ErrorInvalidId\<close> and leaves the world as it was: no call
  to the store, no change of a collection, no broadcast.
\<close>

theorem DeleteMonitor_malformed:
  "\<not> well_formed_id i \<Longrightarrow> DeleteMonitor w fault i = Ret (Some ErrorInvalidId, w)"
  by (simp add: DeleteMonitor_def IsObjectIdHex_iff)

theorem DeleteMonitor_malformed_witness:
  "\<not> well_formed_id ''00000000000000000000000g''
   \<and> DeleteMonitor world1 None ''00000000000000000000000g'' = Ret (Some ErrorInvalidId, world1)"
proof -
  have h: "\<not> well_formed_id ''00000000000000000000000g''"
    by (simp add: well_formed_id_def hexdigits_def)
  show ?thesis using h DeleteMonitor_malformed [OF h] by simp
qed

subsection \<open>Round trip\<close>



subsection \<open>A tick whose fetch fails\<close>

text \<open>
  C8. When fetching the snapshot fails, the tick does nothing but log: the state after
  the tick is the state before it with the fetch and the red log line appended to the
  trace (no draw, no dispatch, no update of the store), the tick returns rather than
  panics, and the loop goes on with the ticks that follow.
\<close>

theorem tick_fetch_failure:
  "find_fault k = Some e \<Longrightarrow>
     tick k s = Ret (s\<lparr>outside := emit (Log Red ''Error getting monitors from Mongo: %s'')
                                   (emit MonitorFindAll (outside s))\<rparr>)
     \<and> ticker (k # ks) s =
         ticker ks (s\<lparr>outside := emit (Log Red ''Error getting monitors from Mongo: %s'')
                                   (emit MonitorFindAll (outside s))\<rparr>)"
  by (simp add: tick_def coll_FindAll_def Let_def)

theorem tick_fetch_failure_witness:
  "find_fault failing_tick = Some (StoreFailure ''down'')
   \<and> tick failing_tick state0 =
       Ret (state0\<lparr>outside := world1\<lparr>trace := [MonitorFindAll, Log Red ''Error getting monitors from Mongo: %s'']\<rparr>\<rparr>)
   \<and> (case ticker [failing_tick, good_tick] state0 of
         Ret s \<Rightarrow> running s = [(mon0, 5)]
           \<and> trace (outside s) = [MonitorFindAll, Log Red ''Error getting monitors from Mongo: %s'', MonitorFindAll]
       | Panic \<Rightarrow> False)"
proof -
  have h: "find_fault failing_tick = Some (StoreFailure ''down'')"
    by (simp add: failing_tick_def)
  have e: "emit (Log Red ''Error getting monitors from Mongo: %s'') (emit MonitorFindAll (outside state0))
        = world1\<lparr>trace := [MonitorFindAll, Log Red ''Error getting monitors from Mongo: %s'']\<rparr>"
    by (simp add: emit_def state0_def world1_def world0_def)
  have g: "tick good_tick (state0\<lparr>outside := world1\<lparr>trace := [MonitorFindAll, Log Red ''Error getting monitors from Mongo: %s'']\<rparr>\<rparr>)
       = Ret \<lparr>outside = world1\<lparr>trace := [MonitorFindAll, Log Red ''Error getting monitors from Mongo: %s'', MonitorFindAll]\<rparr>,
             inFlight = [Id_mon mon0 \<mapsto> True], running = [(mon0, 5)]\<rparr>"
    by (simp add: tick_def good_tick_def coll_FindAll_def emit_def state0_def world1_def world0_def
        scan_mon_def mon0_def Sub_def word_sless_alt Let_def)
  show ?thesis
    using h tick_fetch_failure [OF h, of state0 "[good_tick]"]
    by (simp add: e g)
qed

subsection \<open>Startup\<close>

lemma localId_hex: "IsObjectIdHex localId"
  by code_simp

lemma localId_decode: "ObjectIdHex localId = Ret (replicate 12 (char_of (0::nat)))"
  by code_simp

lemma Loop_without_localtransport:
  assumes "reg ''localtransport'' = None"
    and "find (\<lambda>h. Id_host h = replicate 12 (char_of (0::nat))) (hostCollection w) = None"
  shows "Loop reg w get_fault insert_fault ks = Panic"
  using assms
  by (simp add: Loop_def Loop_startup_def GetHost_def localId_hex localId_decode coll_FindId_def
      hostCollection_emit Let_def split: option.splits)

text \<open>
  C9. With no local host in the store and no \<^verbatim>\<open>localtransport\<close> in the registry, the
  startup logs the missing plugin and then calls the constructor it did not find: the
  call panics, and no tick is ever processed, whatever ticks the ticker would deliver.
\<close>

theorem Loop_startup_panics_without_localtransport:
  "Loop Map.empty world0 None None ks = Panic"
  by (rule Loop_without_localtransport) (simp_all add: world0_def)

subsection \<open>One execution\<close>








subsection \<open>The in-flight map\<close>

lemma scan_mon_cases:
  assumes "scan_mon t v f s mon = Ret s'"
  shows "(inFlight s' = inFlight s \<and> running s' = running s)
       \<or> (inFlight s (Id_mon mon) = None \<and> inFlight s' = (inFlight s)(Id_mon mon \<mapsto> True)
          \<and> running s' = running s @ [(mon, t)] \<and> outside s' = outside s)"
  using assms
  by (auto simp: scan_mon_def Let_def case_prod_beta split: if_splits exec.splits)

lemma inv_scan_mon:
  assumes "in_flight_inv s" and "scan_mon t v f s mon = Ret s'"
  shows "in_flight_inv s'"
proof -
  from assms(1) have d: "distinct (running_ids s)" and e: "dom (inFlight s) = set (running_ids s)"
    by (simp_all add: in_flight_inv_def)
  from scan_mon_cases [OF assms(2)] show ?thesis
  proof (elim disjE conjE)
    assume "inFlight s' = inFlight s" and "running s' = running s"
    then show ?thesis using d e by (simp add: in_flight_inv_def running_ids_def)
  next
    assume n: "inFlight s (Id_mon mon) = None"
      and i: "inFlight s' = (inFlight s)(Id_mon mon \<mapsto> True)"
      and r: "running s' = running s @ [(mon, t)]"
    from n have "Id_mon mon \<notin> dom (inFlight s)" by (simp add: domIff)
    with e have "Id_mon mon \<notin> set (running_ids s)" by simp
    then show ?thesis using d e i r by (simp add: in_flight_inv_def running_ids_def)
  qed
qed

lemma inv_outside: "in_flight_inv (s\<lparr>outside := w\<rparr>) = in_flight_inv s"
  by (simp add: in_flight_inv_def running_ids_def)

lemma inv_scan: "in_flight_inv s \<Longrightarrow> scan t vs fs s mons = Ret s' \<Longrightarrow> in_flight_inv s'"
proof (induction mons arbitrary: s)
  case Nil
  then show ?case by simp
next
  case (Cons mon mons)
  from Cons.prems(2) obtain s1 where
    a: "scan_mon t (vs (Id_mon mon)) (fs (Id_mon mon)) s mon = Ret s1" and
    b: "scan t vs fs s1 mons = Ret s'"
    by (auto split: exec.splits)
  from inv_scan_mon [OF Cons.prems(1) a] have "in_flight_inv s1" .
  then show ?case using b by (rule Cons.IH)
qed

lemma inv_tick:
  assumes "in_flight_inv s" and "tick k s = Ret s'"
  shows "in_flight_inv s'"
proof (cases "coll_FindAll (monitorCollection (emit MonitorFindAll (outside s))) (find_fault k)")
  case (Inl e)
  with assms(2) have "s' = s\<lparr>outside := emit (Log Red ''Error getting monitors from Mongo: %s'')
                                   (emit MonitorFindAll (outside s))\<rparr>"
    by (simp add: tick_def Let_def)
  with assms(1) show ?thesis by (simp add: inv_outside)
next
  case (Inr mons)
  with assms(2) have "scan (tick_time k) (draws k) (update_faults k)
      (s\<lparr>outside := emit MonitorFindAll (outside s)\<rparr>) mons = Ret s'"
    by (simp add: tick_def Let_def)
  moreover from assms(1) have "in_flight_inv (s\<lparr>outside := emit MonitorFindAll (outside s)\<rparr>)"
    by (simp add: inv_outside)
  ultimately show ?thesis by (rule inv_scan [rotated])
qed

lemma map_remove1_distinct:
  "distinct (map f xs) \<Longrightarrow> x \<in> set xs \<Longrightarrow>
     distinct (map f (remove1 x xs)) \<and> set (map f (remove1 x xs)) = set (map f xs) - {f x}"
  by (induction xs) auto

lemma inFlight_execution: "inFlight (execution r s mon t) = (inFlight s)(Id_mon mon := None)"
  by (simp add: execution_def Let_def case_prod_beta)

lemma running_execution: "running (execution r s mon t) = remove1 (mon, t) (running s)"
  by (simp add: execution_def Let_def case_prod_beta)

lemma inv_execution:
  assumes "in_flight_inv s" and "(mon, t) \<in> set (running s)"
  shows "in_flight_inv (execution r s mon t)"
proof -
  from assms(1) have d: "distinct (map (\<lambda>x. Id_mon (fst x)) (running s))"
    by (simp add: in_flight_inv_def running_ids_def)
  from map_remove1_distinct [OF d assms(2)] assms(1) show ?thesis
    by (auto simp: in_flight_inv_def running_ids_def inFlight_execution running_execution)
qed

lemma inv_step: "step gen s s' \<Longrightarrow> in_flight_inv s \<Longrightarrow> in_flight_inv s'"
proof (induction rule: step.induct)
  case (scan_step t v fault s mon s')
  then show ?case by (blast intro: inv_scan_mon)
next
  case (finish_step mon t s r)
  then show ?case by (blast intro: inv_execution)
next
  case (tick_step k s s')
  then show ?case by (blast intro: inv_tick)
qed (simp_all add: inv_outside)

lemma inv_reachable: "reachable gen s \<Longrightarrow> in_flight_inv s"
proof (induction rule: reachable.induct)
  case (reachable_init w)
  show ?case by (simp add: in_flight_inv_def running_ids_def)
next
  case (reachable_step s s')
  then show ?case by (blast intro: inv_step)
qed

text \<open>
  C1. In every state the process can reach, the running executions carry pairwise
  distinct monitor identifiers, and the in-flight map holds exactly those identifiers:
  no monitor has two executions in flight. Scanning a monitor whose identifier is in the
  map, at any tick, returns the state as it was: no second entry, no second execution,
  and nothing added to the trace (no update, no sink write) on its behalf.
\<close>

theorem at_most_one_execution_in_flight:
  assumes "reachable gen s"
  shows "distinct (running_ids s) \<and> dom (inFlight s) = set (running_ids s)
    \<and> (\<forall>t v fault mon. Id_mon mon \<in> dom (inFlight s) \<longrightarrow> scan_mon t v fault s mon = Ret s)"
  using inv_reachable [OF assms] by (auto simp: in_flight_inv_def scan_mon_def Let_def)

lemma reachable_state1: "reachable gen state1"
proof -
  have "reachable gen \<lparr>outside = world1, inFlight = Map.empty, running = []\<rparr>"
    by (rule reachable_init) (simp_all add: world1_def world0_def added_ids_def)
  moreover have "scan_mon 5 0 None \<lparr>outside = world1, inFlight = Map.empty, running = []\<rparr> mon0 = Ret state1"
    by (simp add: scan_mon_def state1_def mon0_def Sub_def Let_def word_sless_alt)
  ultimately show ?thesis by (blast intro: reachable_step scan_step)
qed

theorem at_most_one_execution_in_flight_witness:
  "reachable (\<lambda>n. []) state1 \<and> Id_mon mon0 \<in> dom (inFlight state1) \<and> running_ids state1 = [Id_mon mon0]
     \<and> scan_mon 105 7 None state1 mon0 = Ret state1"
  using at_most_one_execution_in_flight [OF reachable_state1 [of "\<lambda>n. []"]] reachable_state1 [of "\<lambda>n. []"]
  by (simp add: state1_def running_ids_def)

text \<open>
  C4. An execution ends by deleting its monitor's identifier from the in-flight map,
  whatever the job, the storage update and the sink write answered; and in every
  reachable state each identifier in the map belongs to a running execution, which can
  finish and then leaves the identifier out of the map.
\<close>

theorem execution_clears_in_flight:
  "inFlight (execution r s mon t) (Id_mon mon) = None
   \<and> (reachable gen s \<longrightarrow> i \<in> dom (inFlight s) \<longrightarrow>
        (\<exists>mon' t'. (mon', t') \<in> set (running s) \<and> Id_mon mon' = i
           \<and> (\<forall>r'. step gen s (execution r' s mon' t') \<and> inFlight (execution r' s mon' t') i = None)))"
proof (intro conjI impI)
  show "inFlight (execution r s mon t) (Id_mon mon) = None"
    by (simp add: inFlight_execution)
next
  assume "reachable gen s" and i: "i \<in> dom (inFlight s)"
  then have "i \<in> set (running_ids s)"
    using inv_reachable [of gen s] by (simp add: in_flight_inv_def)
  then obtain mon' t' where m: "(mon', t') \<in> set (running s)" "Id_mon mon' = i"
    by (auto simp: running_ids_def)
  then show "\<exists>mon' t'. (mon', t') \<in> set (running s) \<and> Id_mon mon' = i
           \<and> (\<forall>r'. step gen s (execution r' s mon' t') \<and> inFlight (execution r' s mon' t') i = None)"
    by (auto simp: inFlight_execution intro: finish_step)
qed

theorem execution_clears_in_flight_witness:
  "reachable (\<lambda>n. []) state1 \<and> Id_mon mon0 \<in> dom (inFlight state1)
   \<and> inFlight (execution all_fail state1 mon0 5) (Id_mon mon0) = None
   \<and> (\<exists>mon' t'. (mon', t') \<in> set (running state1) \<and> Id_mon mon' = Id_mon mon0
           \<and> (\<forall>r'. step (\<lambda>n. []) state1 (execution r' state1 mon' t')
                  \<and> inFlight (execution r' state1 mon' t') (Id_mon mon0) = None))"
proof -
  have d: "Id_mon mon0 \<in> dom (inFlight state1)" by (simp add: state1_def)
  show ?thesis
    using execution_clears_in_flight [of all_fail state1 mon0 5 "\<lambda>n. []" "Id_mon mon0"] reachable_state1 [of "\<lambda>n. []"] d
    by blast
qed

subsection \<open>Cold start\<close>

lemma sint_word_of_int_64:
  "- (2 ^ 63) \<le> d \<Longrightarrow> d < 2 ^ 63 \<Longrightarrow> sint (word_of_int d :: 64 word) = d"
  by (simp add: sint_sbintrunc' signed_take_bit_int_eq_self)

lemma sint_Sub:
  "sint (Sub t u) = (if t - u < - (2 ^ 63) then - (2 ^ 63) else if 2 ^ 63 - 1 < t - u then 2 ^ 63 - 1 else t - u)"
proof -
  obtain d where d: "t - u = d" by simp
  have "sint (if d < - (2 ^ 63) then minDuration else if 2 ^ 63 - 1 < d then maxDuration else word_of_int d)
      = (if d < - (2 ^ 63) then - (2 ^ 63) else if 2 ^ 63 - 1 < d then 2 ^ 63 - 1 else d)"
    by (simp add: minDuration_def maxDuration_def sint_word_of_int_64)
  then show ?thesis
    unfolding Sub_def Let_def d .
qed

lemma sint_bounds_64: "- (2 ^ 63) \<le> sint (i :: 64 word) \<and> sint i < 2 ^ 63"
  using sint_ge [of i] sint_lt [of i] by simp

lemma sint_minus_pos:
  assumes "0 < sint (i :: 64 word)"
  shows "sint (- i) = - sint i"
proof -
  have "sint (- i) = signed_take_bit 63 (- sint i)"
    by (simp add: sint_word_ariths)
  also have "\<dots> = - sint i"
    using assms sint_bounds_64 [of i] by (intro signed_take_bit_int_eq_self) simp_all
  finally show ?thesis .
qed

lemma sint_double:
  assumes "0 < sint (i :: 64 word)"
  shows "sint (i * 2) = 2 * sint i \<or> sint (i * 2) < 0"
proof -
  have e: "sint (i * 2) = signed_take_bit 63 (sint i * 2)"
    by (simp add: sint_word_ariths)
  have b: "sint i < 9223372036854775808"
    using sint_bounds_64 [of i] by simp
  show ?thesis
  proof (cases "sint i * 2 < 2 ^ 63")
    case True
    with assms have "signed_take_bit 63 (sint i * 2) = sint i * 2"
      by (intro signed_take_bit_int_eq_self) simp_all
    with e show ?thesis by simp
  next
    case False
    then have "2 ^ 63 \<le> sint i * 2" by simp
    from signed_take_bit_int_less_eq [OF this]
    have "signed_take_bit 63 (sint i * 2) \<le> sint i * 2 - 18446744073709551616" by simp
    with b have "signed_take_bit 63 (sint i * 2) < 0" by linarith
    with e show ?thesis by simp
  qed
qed

lemma cold_start_condition:
  assumes "0 < sint i" and "2 * sint i < t - lc" and "nc - t < - sint i"
  shows "i * 2 <s Sub t lc \<and> Sub nc t <s - i"
proof
  from assms(1,2) have p: "0 < sint (Sub t lc)"
    by (simp add: sint_Sub)
  from sint_double [OF assms(1)] show "i * 2 <s Sub t lc"
  proof
    assume d: "sint (i * 2) = 2 * sint i"
    have "sint (i * 2) < 9223372036854775808"
      using sint_bounds_64 [of "i * 2"] by simp
    with d have "2 * sint i < 9223372036854775807" by presburger
    with assms(2) d show ?thesis
      by (simp add: word_sless_alt sint_Sub)
  next
    assume "sint (i * 2) < 0"
    with p show ?thesis by (simp add: word_sless_alt)
  qed
  from assms(1,3) sint_bounds_64 [of i] show "Sub nc t <s - i"
    by (simp add: word_sless_alt sint_Sub sint_minus_pos)
qed

lemma Int63n_positive:
  assumes "0 < sint n"
  shows "Int63n v n = Ret (word_of_int (int v mod sint n))"
    and "sint (word_of_int (int v mod sint n) :: 64 word) = int v mod sint n"
proof -
  from assms sint_bounds_64 [of n] have "take_bit 64 (sint n) = sint n"
    by (intro take_bit_int_eq_self) simp_all
  then have u: "uint n = sint n"
    by (simp add: uint_sint)
  then have "int (unat n) = sint n" by simp
  then have "int (v mod unat n) = int v mod sint n"
    by (simp add: zmod_int)
  then have "(word_of_nat (v mod unat n) :: 64 word) = word_of_int (int v mod sint n)"
    by (metis of_int_of_nat_eq)
  moreover from assms have "\<not> n \<le>s 0" by (simp add: word_sle_eq)
  ultimately show "Int63n v n = Ret (word_of_int (int v mod sint n))"
    by (simp add: Int63n_def)
  have "0 \<le> int v mod sint n" "int v mod sint n < sint n"
    using assms by simp_all
  with sint_bounds_64 [of n] show "sint (word_of_int (int v mod sint n) :: 64 word) = int v mod sint n"
    by (intro sint_word_of_int_64) simp_all
qed

text \<open>
  C2. For a monitor that is not in flight, with a positive interval, whose age
  \<open>t - LastCheck\<close> exceeds twice the interval and whose wait \<open>NextCheck - t\<close> is below
  minus the interval, the scan dispatches nothing: it returns the state with the
  in-flight map and the running executions as they were, and with the world left by the
  update of the monitor whose \<open>NextCheck\<close> is \<open>t + r\<close>, where \<open>r\<close>, the result of
  \<^verbatim>\<open>rand.Int63n\<close> on the interval, lies in \<open>[0, Interval)\<close>. The hypotheses are the
  mathematical ones, on unbounded integers; the saturation of \<^verbatim>\<open>Time.Sub\<close> and the
  wrap-around of \<^verbatim>\<open>Interval*2\<close> do not change the branch taken.
\<close>

theorem cold_start_delays_first_check:
  assumes "inFlight s (Id_mon mon) = None"
    and "0 < sint (Interval mon)"
    and "2 * sint (Interval mon) < t - LastCheck mon"
    and "NextCheck mon - t < - sint (Interval mon)"
  shows "0 \<le> int v mod sint (Interval mon) \<and> int v mod sint (Interval mon) < sint (Interval mon)
    \<and> scan_mon t v fault s mon =
        Ret (s\<lparr>outside :=
          (let u = UpdateMonitor (emit (Log Yellow ''%s %s: Delaying first check by %s'') (outside s)) fault
                     (mon\<lparr>NextCheck := t + int v mod sint (Interval mon)\<rparr>)
           in if fst u \<noteq> None then emit (Log Red ''Error updating: %v'') (snd u) else snd u)\<rparr>)"
proof -
  from cold_start_condition [OF assms(2,3,4)]
  have c: "Interval mon * 2 <s Sub t (LastCheck mon)" "Sub (NextCheck mon) t <s - Interval mon"
    by simp_all
  from assms(2) have r: "0 \<le> int v mod sint (Interval mon)" "int v mod sint (Interval mon) < sint (Interval mon)"
    by simp_all
  have "scan_mon t v fault s mon =
        Ret (s\<lparr>outside :=
          (let u = UpdateMonitor (emit (Log Yellow ''%s %s: Delaying first check by %s'') (outside s)) fault
                     (mon\<lparr>NextCheck := t + int v mod sint (Interval mon)\<rparr>)
           in if fst u \<noteq> None then emit (Log Red ''Error updating: %v'') (snd u) else snd u)\<rparr>)"
    using assms(1) c
    by (simp del: not_None_eq add: scan_mon_def Int63n_positive [OF assms(2)] Add_def Let_def case_prod_beta)
  with r show ?thesis by simp
qed

theorem cold_start_delays_first_check_witness:
  "inFlight state0 (Id_mon mon0) = None
   \<and> 0 < sint (Interval mon0)
   \<and> 2 * sint (Interval mon0) < 5000 - LastCheck mon0
   \<and> NextCheck mon0 - 5000 < - sint (Interval mon0)
   \<and> scan_mon 5000 1234567 None state0 mon0 =
       Ret (state0\<lparr>outside := world1
         \<lparr>monitorCollection := [mon0\<lparr>NextCheck := 5567\<rparr>],
          trace := [Log Yellow ''%s %s: Delaying first check by %s'',
                    Broadcast ''monchange'' (MonitorValue (mon0\<lparr>NextCheck := 5567\<rparr>)),
                    MonitorUpdateId (Id_mon mon0) (mon0\<lparr>NextCheck := 5567\<rparr>)]\<rparr>\<rparr>)"
proof -
  have a: "inFlight state0 (Id_mon mon0) = None" by (simp add: state0_def)
  have i: "sint (Interval mon0) = 1000" by (simp add: mon0_def)
  have b: "0 < sint (Interval mon0)" by (simp add: i)
  have c: "2 * sint (Interval mon0) < 5000 - LastCheck mon0" by (simp add: i) (simp add: mon0_def)
  have d: "NextCheck mon0 - 5000 < - sint (Interval mon0)" by (simp add: i) (simp add: mon0_def)
  have u: "UpdateMonitor (emit (Log Yellow ''%s %s: Delaying first check by %s'') (outside state0)) None
             (mon0\<lparr>NextCheck := 5567\<rparr>)
           = (None, world1
         \<lparr>monitorCollection := [mon0\<lparr>NextCheck := 5567\<rparr>],
          trace := [Log Yellow ''%s %s: Delaying first check by %s'',
                    Broadcast ''monchange'' (MonitorValue (mon0\<lparr>NextCheck := 5567\<rparr>)),
                    MonitorUpdateId (Id_mon mon0) (mon0\<lparr>NextCheck := 5567\<rparr>)]\<rparr>)"
    by (simp add: UpdateMonitor_def coll_UpdateId_def emit_def state0_def world1_def world0_def Let_def)
  show ?thesis
    using a b c d cold_start_delays_first_check [OF a b c d, of 1234567 None]
    by (simp add: i u)
qed

subsection \<open>Add\<close>


lemma added_ids_emit: "added_ids (trace (emit x w)) = added_ids (trace w) @ added_id x"
  by (simp add: emit_def added_ids_def)


















subsection \<open>The loop as a run of the process\<close>

lemma reachable_ticker: "reachable gen s \<Longrightarrow> ticker ks s = Ret s' \<Longrightarrow> reachable gen s'"
proof (induction ks arbitrary: s)
  case Nil
  then show ?case by simp
next
  case (Cons k ks)
  from Cons.prems(2) obtain s1 where a: "tick k s = Ret s1" and b: "ticker ks s1 = Ret s'"
    by (auto split: exec.splits)
  from Cons.prems(1) a have "reachable gen s1"
    by (blast intro: reachable_step tick_step)
  then show ?case using b by (rule Cons.IH)
qed

lemma ids_Loop_startup:
  assumes "Loop_startup reg w get_fault insert_fault = Ret w'"
  shows "added_ids (trace w') = added_ids (trace w) \<and> objectIdCounter w' = objectIdCounter w"
  using assms
  by (auto simp: Loop_startup_def GetHost_def localId_hex localId_decode Let_def case_prod_beta
      added_ids_emit added_id_def objectIdCounter_emit
      split: sum.splits option.splits plugin.splits)

text \<open>
  Every state the loop of the source goes through, started in a process that has served
  no add, is a state of the interleaving model.
\<close>

lemma reachable_Loop:
  assumes "Loop reg w get_fault insert_fault ks = Ret s"
    and "added_ids (trace w) = []" and "objectIdCounter w = 0"
  shows "reachable gen s"
proof -
  from assms(1) obtain w' where a: "Loop_startup reg w get_fault insert_fault = Ret w'"
    and b: "ticker ks \<lparr>outside = w', inFlight = Map.empty, running = []\<rparr> = Ret s"
    by (auto simp: Loop_def split: exec.splits)
  from ids_Loop_startup [OF a] assms(2,3)
  have "reachable gen \<lparr>outside = w', inFlight = Map.empty, running = []\<rparr>"
    by (intro reachable_init) simp_all
  then show ?thesis using b by (rule reachable_ticker)
qed

end
